theory Spec2Isabelle
  imports Complex_Main
begin

section \<open>Data model (shared/schema.ts)\<close>

text \<open>
  Every table of the schema is a list of rows, in the order the store holds them. Only
  the columns that the review ledger and the rating aggregator read or write are kept.
  Integer columns are \<open>int\<close>; timestamps are milliseconds since the epoch. The columns
  \<open>average_rating\<close>, \<open>total_reviews\<close> and \<open>date\<close> are nullable in the schema, but every
  write of the storage layer supplies a number, so they are plain integers here.
\<close>

record user =
  u_id :: int
  u_firstName :: string
  u_lastName :: string
  u_userType :: string
  u_photoUrl :: "string option"

record official =
  o_id :: int
  o_firstName :: string
  o_lastName :: string
  o_age :: int
  o_location :: string
  o_association :: string
  o_yearsExperience :: int
  o_photoUrl :: "string option"
  o_averageRating :: int
  o_totalReviews :: int

record event =
  e_id :: int
  e_name :: string
  e_date :: int

record eventOfficial =
  eo_id :: int
  eo_eventId :: int
  eo_officialId :: int
  eo_role :: "string option"

record eventTeam =
  et_id :: int
  et_eventId :: int
  et_teamId :: int

record review =
  r_id :: int
  r_officialId :: int
  r_userId :: int
  r_eventId :: int
  r_mechanics :: int
  r_professionalism :: int
  r_positioning :: int
  r_stalling :: int
  r_consistency :: int
  r_appearance :: int
  r_comment :: string
  r_date :: int
  r_isReported :: bool
  r_isAnonymous :: bool

text \<open>The \<open>user\<close> and \<open>event\<close> objects nested in a joined review row.\<close>

record userSummary =
  us_firstName :: string
  us_lastName :: string
  us_userType :: string
  us_photoUrl :: "string option"

record eventSummary =
  es_name :: string
  es_date :: int

text \<open>
  The type \<open>Review\<close> of the schema: a row of \<open>reviews\<close> extended with the reviewer and
  the event it joins to.
\<close>

record Review = review +
  rv_user :: userSummary
  rv_event :: eventSummary

text \<open>\<open>InsertReview & { userId: number }\<close>, the argument of \<open>createReview\<close>.\<close>

record insertReview =
  ir_officialId :: int
  ir_userId :: int
  ir_eventId :: int
  ir_mechanics :: int
  ir_professionalism :: int
  ir_positioning :: int
  ir_stalling :: int
  ir_consistency :: int
  ir_appearance :: int
  ir_comment :: "string option"
  ir_isAnonymous :: bool

text \<open>\<open>InsertOfficial & { photoUrl?: string }\<close>, the argument of \<open>createOfficial\<close>.\<close>

record insertOfficial =
  io_firstName :: string
  io_lastName :: string
  io_age :: int
  io_location :: string
  io_association :: string
  io_yearsExperience :: int
  io_photoUrl :: "string option"

record CategoryAverages =
  mechanics :: int
  professionalism :: int
  positioning :: int
  stalling :: int
  consistency :: int
  appearance :: int
  overall :: int

text \<open>
  The store: the six tables and the two \<open>serial\<close> sequences that the modelled inserts
  draw their primary keys from.
\<close>

record db =
  users :: "user list"
  officials :: "official list"
  events :: "event list"
  eventOfficials :: "eventOfficial list"
  eventTeams :: "eventTeam list"
  reviews :: "review list"
  officials_seq :: int
  reviews_seq :: int

text \<open>
  A thrown JavaScript \<open>Error\<close> carries its message; \<open>StorageFailure\<close> stands for an
  error raised by the database driver while a statement runs.
\<close>

datatype error = Error string | StorageFailure

section \<open>Numbers\<close>

text \<open>
  JavaScript numbers are modelled as rationals. \<open>Math.round\<close> returns the integer
  nearest to its argument, the larger one at a tie. The quotients taken below divide an
  integer sum by a positive count. For scores between 1 and 5 the quotient is at most 5,
  and its double-precision value lies on the same side of every half-integer as the
  exact quotient as long as there are fewer than \<open>2^49\<close> rows, so the rounding of the
  code agrees with the one on rationals.
\<close>

definition Math_round :: "rat \<Rightarrow> int" where
  "Math_round x = \<lfloor>x + 1 / 2\<rfloor>"

section \<open>Rating aggregator (server/storage.ts)\<close>

text \<open>The projection of \<open>getReviewsForOfficial\<close>: one joined row.\<close>

definition joinRow :: "review \<Rightarrow> user \<Rightarrow> event \<Rightarrow> Review" where
  "joinRow r u e =
     \<lparr> r_id = r_id r, r_officialId = r_officialId r, r_userId = r_userId r,
       r_eventId = r_eventId r, r_mechanics = r_mechanics r,
       r_professionalism = r_professionalism r, r_positioning = r_positioning r,
       r_stalling = r_stalling r, r_consistency = r_consistency r,
       r_appearance = r_appearance r, r_comment = r_comment r, r_date = r_date r,
       r_isReported = r_isReported r, r_isAnonymous = r_isAnonymous r,
       rv_user = \<lparr> us_firstName = u_firstName u, us_lastName = u_lastName u,
                   us_userType = u_userType u, us_photoUrl = u_photoUrl u \<rparr>,
       rv_event = \<lparr> es_name = e_name e, es_date = e_date e \<rparr> \<rparr>"

text \<open>
  \<open>reviews INNER JOIN users ON reviews.user_id = users.id INNER JOIN events ON
  reviews.event_id = events.id\<close>, restricted by a predicate on the review.
\<close>

definition joinReviews :: "(review \<Rightarrow> bool) \<Rightarrow> db \<Rightarrow> Review list" where
  "joinReviews P d =
     concat (map (\<lambda>r.
       concat (map (\<lambda>u.
         concat (map (\<lambda>e.
           if r_userId r = u_id u \<and> r_eventId r = e_id e \<and> P r
           then [joinRow r u e] else [])
         (events d)))
       (users d)))
     (reviews d))"

text \<open>
  The rows come back ordered by \<open>date\<close>, newest first; rows of equal date keep the order
  of the join.
\<close>

definition getReviewsForOfficial :: "int \<Rightarrow> db \<Rightarrow> Review list" where
  "getReviewsForOfficial officialId d =
     sort_key (\<lambda>row. - r_date row) (joinReviews (\<lambda>r. r_officialId r = officialId) d)"

text \<open>
  \<open>calculateCategoryAverages\<close>: the accumulator of its \<open>reduce\<close>, one step of the
  \<open>reduce\<close>, its initial value, and the body of the function after the rows have been
  fetched (\<open>averagesOf\<close>).
\<close>

record categorySums =
  s_mechanics :: int
  s_professionalism :: int
  s_positioning :: int
  s_stalling :: int
  s_consistency :: int
  s_appearance :: int

definition addReview :: "categorySums \<Rightarrow> Review \<Rightarrow> categorySums" where
  "addReview acc review =
     \<lparr> s_mechanics = s_mechanics acc + r_mechanics review,
       s_professionalism = s_professionalism acc + r_professionalism review,
       s_positioning = s_positioning acc + r_positioning review,
       s_stalling = s_stalling acc + r_stalling review,
       s_consistency = s_consistency acc + r_consistency review,
       s_appearance = s_appearance acc + r_appearance review \<rparr>"

definition zeroSums :: categorySums where
  "zeroSums = \<lparr> s_mechanics = 0, s_professionalism = 0, s_positioning = 0,
                s_stalling = 0, s_consistency = 0, s_appearance = 0 \<rparr>"

definition averagesOf :: "Review list \<Rightarrow> CategoryAverages" where
  "averagesOf rows =
     (if length rows = 0 then
        \<lparr> mechanics = 0, professionalism = 0, positioning = 0, stalling = 0,
          consistency = 0, appearance = 0, overall = 0 \<rparr>
      else
        let sums' = foldl addReview zeroSums rows;
            count = int (length rows);
            a_mechanics = Math_round (of_int (s_mechanics sums') / of_int count);
            a_professionalism = Math_round (of_int (s_professionalism sums') / of_int count);
            a_positioning = Math_round (of_int (s_positioning sums') / of_int count);
            a_stalling = Math_round (of_int (s_stalling sums') / of_int count);
            a_consistency = Math_round (of_int (s_consistency sums') / of_int count);
            a_appearance = Math_round (of_int (s_appearance sums') / of_int count);
            a_overall = Math_round
              (of_int (a_mechanics + a_professionalism + a_positioning + a_stalling
                        + a_consistency + a_appearance) / 6)
        in \<lparr> mechanics = a_mechanics, professionalism = a_professionalism,
             positioning = a_positioning, stalling = a_stalling,
             consistency = a_consistency, appearance = a_appearance,
             overall = a_overall \<rparr>)"

definition calculateCategoryAverages :: "int \<Rightarrow> db \<Rightarrow> CategoryAverages" where
  "calculateCategoryAverages officialId d = averagesOf (getReviewsForOfficial officialId d)"

text \<open>
  \<open>UPDATE officials SET average_rating = ..., total_reviews = ... WHERE id = ...\<close>: an
  official that does not exist leaves the table as it is.
\<close>

definition updateOfficialRating :: "int \<Rightarrow> db \<Rightarrow> db" where
  "updateOfficialRating ident d =
     (let averages = calculateCategoryAverages ident d;
          rows = getReviewsForOfficial ident d
      in d\<lparr> officials :=
              map (\<lambda>off. if o_id off = ident
                          then off\<lparr> o_averageRating := overall averages,
                                    o_totalReviews := int (length rows) \<rparr>
                          else off)
                  (officials d) \<rparr>)"

section \<open>Officials\<close>

text \<open>
  \<open>getOfficials(page = 1, limit = 20)\<close>: one page of the table and the number of all its
  rows. The query has no \<open>ORDER BY\<close>; the rows come in the order of the table. The
  database refuses a negative \<open>LIMIT\<close> or \<open>OFFSET\<close>.
\<close>

definition getOfficials :: "int \<Rightarrow> int \<Rightarrow> db \<Rightarrow> error + (official list \<times> int)" where
  "getOfficials page limit d =
     (let offset = (page - 1) * limit
      in if limit < 0 \<or> offset < 0 then Inl StorageFailure
         else Inr (take (nat limit) (drop (nat offset) (officials d)),
                   int (length (officials d))))"

definition createOfficial :: "insertOfficial \<Rightarrow> db \<Rightarrow> official \<times> db" where
  "createOfficial off d =
     (let newOfficial =
            \<lparr> o_id = officials_seq d,
              o_firstName = io_firstName off,
              o_lastName = io_lastName off,
              o_age = io_age off,
              o_location = io_location off,
              o_association = io_association off,
              o_yearsExperience = io_yearsExperience off,
              o_photoUrl = (case io_photoUrl off of
                              None \<Rightarrow> None
                            | Some p \<Rightarrow> if p = [] then None else Some (''/'' @ p)),
              o_averageRating = 0,
              o_totalReviews = 0 \<rparr>
      in (newOfficial,
          d\<lparr> officials := officials d @ [newOfficial],
             officials_seq := officials_seq d + 1 \<rparr>))"

definition deleteOfficial :: "int \<Rightarrow> db \<Rightarrow> db" where
  "deleteOfficial ident d =
     (let d1 = d\<lparr> eventOfficials :=
                     filter (\<lambda>eo. eo_officialId eo \<noteq> ident) (eventOfficials d) \<rparr>;
          d2 = d1\<lparr> reviews := filter (\<lambda>r. r_officialId r \<noteq> ident) (reviews d1) \<rparr>
      in d2\<lparr> officials := filter (\<lambda>off. o_id off \<noteq> ident) (officials d2) \<rparr>)"

text \<open>
  \<open>refreshAllOfficialRatings\<close>. The statements of one \<open>updateOfficialRating\<close> can be
  rejected by the database; \<open>fails\<close> tells for which officials they are. A rejected
  recompute has written nothing. The \<open>for\<close> loop awaits each recompute inside one
  \<open>try\<close> whose \<open>catch\<close> logs the error and throws it again.
\<close>

definition attemptUpdateOfficialRating ::
  "(int \<Rightarrow> bool) \<Rightarrow> int \<Rightarrow> db \<Rightarrow> (error + unit) \<times> db" where
  "attemptUpdateOfficialRating fails ident d =
     (if fails ident then (Inl StorageFailure, d)
      else (Inr (), updateOfficialRating ident d))"

fun refreshLoop :: "(int \<Rightarrow> bool) \<Rightarrow> official list \<Rightarrow> db \<Rightarrow> (error + unit) \<times> db" where
  "refreshLoop fails [] d = (Inr (), d)"
| "refreshLoop fails (off # rest) d =
     (case attemptUpdateOfficialRating fails (o_id off) d of
        (Inl e, d') \<Rightarrow> (Inl e, d')
      | (Inr u, d') \<Rightarrow> refreshLoop fails rest d')"

definition refreshAllOfficialRatings :: "(int \<Rightarrow> bool) \<Rightarrow> db \<Rightarrow> (error + unit) \<times> db" where
  "refreshAllOfficialRatings fails d =
     (case getOfficials 1 20 d of
        Inl e \<Rightarrow> (Inl e, d)
      | Inr (data, n) \<Rightarrow> refreshLoop fails data d)"

section \<open>Review ledger\<close>

text \<open>
  \<open>createReview\<close>, at the time \<open>now\<close>. A thrown error leaves the store as it is at the
  \<open>throw\<close>. The value returned is the first row of the final joined query, which is
  \<open>undefined\<close> when the new review joins to no user or to no event.
\<close>

definition createReview ::
  "insertReview \<Rightarrow> int \<Rightarrow> db \<Rightarrow> (error + Review option) \<times> db" where
  "createReview review now d =
     (let existingReview =
            filter (\<lambda>r. r_userId r = ir_userId review \<and>
                        r_officialId r = ir_officialId review \<and>
                        r_eventId r = ir_eventId review) (reviews d)
      in if length existingReview > 0 then
           (Inl (Error ''You have already reviewed this official for this event''), d)
         else
           let officialEvent =
                 filter (\<lambda>eo. eo_officialId eo = ir_officialId review \<and>
                              eo_eventId eo = ir_eventId review) (eventOfficials d)
           in if length officialEvent = 0 then
                (Inl (Error ''This official was not assigned to this event''), d)
              else
                let newReview =
                      \<lparr> r_id = reviews_seq d,
                        r_officialId = ir_officialId review,
                        r_userId = ir_userId review,
                        r_eventId = ir_eventId review,
                        r_mechanics = ir_mechanics review,
                        r_professionalism = ir_professionalism review,
                        r_positioning = ir_positioning review,
                        r_stalling = ir_stalling review,
                        r_consistency = ir_consistency review,
                        r_appearance = ir_appearance review,
                        r_comment = (case ir_comment review of None \<Rightarrow> [] | Some c \<Rightarrow> c),
                        r_date = now,
                        r_isReported = False,
                        r_isAnonymous = ir_isAnonymous review \<rparr>;
                    d1 = d\<lparr> reviews := reviews d @ [newReview],
                            reviews_seq := reviews_seq d + 1 \<rparr>;
                    d2 = updateOfficialRating (ir_officialId review) d1;
                    reviewWithDetails =
                      (case joinReviews (\<lambda>r. r_id r = r_id newReview) d2 of
                         [] \<Rightarrow> None
                       | row # rest \<Rightarrow> Some row)
                in (Inr reviewWithDetails, d2))"

definition reportReview :: "int \<Rightarrow> db \<Rightarrow> db" where
  "reportReview ident d =
     d\<lparr> reviews :=
          map (\<lambda>r. if r_id r = ident then r\<lparr> r_isReported := True \<rparr> else r) (reviews d) \<rparr>"

definition deleteReview :: "int \<Rightarrow> db \<Rightarrow> (error + unit) \<times> db" where
  "deleteReview ident d =
     (case filter (\<lambda>r. r_id r = ident) (reviews d) of
        [] \<Rightarrow> (Inl (Error ''Review not found''), d)
      | review # rest \<Rightarrow>
          let d1 = d\<lparr> reviews := filter (\<lambda>r. r_id r \<noteq> ident) (reviews d) \<rparr>
          in (Inr (), updateOfficialRating (r_officialId review) d1))"

section \<open>Cascading deletions\<close>

definition deleteUser :: "int \<Rightarrow> db \<Rightarrow> db" where
  "deleteUser userId d =
     (let d1 = d\<lparr> reviews := filter (\<lambda>r. r_userId r \<noteq> userId) (reviews d) \<rparr>
      in d1\<lparr> users := filter (\<lambda>u. u_id u \<noteq> userId) (users d1) \<rparr>)"

definition deleteEvent :: "int \<Rightarrow> db \<Rightarrow> db" where
  "deleteEvent ident d =
     (let d1 = d\<lparr> eventOfficials :=
                     filter (\<lambda>eo. eo_eventId eo \<noteq> ident) (eventOfficials d) \<rparr>;
          d2 = d1\<lparr> eventTeams := filter (\<lambda>et. et_eventId et \<noteq> ident) (eventTeams d1) \<rparr>;
          d3 = d2\<lparr> reviews := filter (\<lambda>r. r_eventId r \<noteq> ident) (reviews d2) \<rparr>
      in d3\<lparr> events := filter (\<lambda>e. e_id e \<noteq> ident) (events d3) \<rparr>)"

section \<open>Vocabulary of the specification\<close>

text \<open>
  The valid reviews of an official, in the words of the specification: the reviews that
  reference the official and whose reviewer and event both still exist.
\<close>

definition validReviews :: "int \<Rightarrow> db \<Rightarrow> review list" where
  "validReviews officialId d =
     filter (\<lambda>r. r_officialId r = officialId \<and>
                 r_userId r \<in> u_id ` set (users d) \<and>
                 r_eventId r \<in> e_id ` set (events d))
            (reviews d)"

text \<open>
  \<open>roundHalfUp q k\<close>: the integer \<open>k\<close> is the one nearest to \<open>q\<close>, the larger of the two
  when \<open>q\<close> lies halfway between two integers.
\<close>

definition roundHalfUp :: "rat \<Rightarrow> int \<Rightarrow> bool" where
  "roundHalfUp q k \<longleftrightarrow> of_int k - 1 / 2 \<le> q \<and> q < of_int k + 1 / 2"

text \<open>All six category scores of a review lie in \<open>{1, ..., 5}\<close>.\<close>

definition scoresInRange :: "'a review_scheme \<Rightarrow> bool" where
  "scoresInRange r \<longleftrightarrow>
     1 \<le> r_mechanics r \<and> r_mechanics r \<le> 5 \<and>
     1 \<le> r_professionalism r \<and> r_professionalism r \<le> 5 \<and>
     1 \<le> r_positioning r \<and> r_positioning r \<le> 5 \<and>
     1 \<le> r_stalling r \<and> r_stalling r \<le> 5 \<and>
     1 \<le> r_consistency r \<and> r_consistency r \<le> 5 \<and>
     1 \<le> r_appearance r \<and> r_appearance r \<le> 5"

text \<open>The same bounds on the scores of a review about to be inserted.\<close>

definition insertInRange :: "insertReview \<Rightarrow> bool" where
  "insertInRange review \<longleftrightarrow>
     1 \<le> ir_mechanics review \<and> ir_mechanics review \<le> 5 \<and>
     1 \<le> ir_professionalism review \<and> ir_professionalism review \<le> 5 \<and>
     1 \<le> ir_positioning review \<and> ir_positioning review \<le> 5 \<and>
     1 \<le> ir_stalling review \<and> ir_stalling review \<le> 5 \<and>
     1 \<le> ir_consistency review \<and> ir_consistency review \<le> 5 \<and>
     1 \<le> ir_appearance review \<and> ir_appearance review \<le> 5"

text \<open>
  The invariant of the store: every stored review has its scores in range, and every
  official carries an \<open>averageRating\<close> in \<open>{0, ..., 5}\<close> and a \<open>totalReviews\<close> that is not
  negative.
\<close>

definition reviewsInRange :: "db \<Rightarrow> bool" where
  "reviewsInRange d \<longleftrightarrow> (\<forall>r \<in> set (reviews d). scoresInRange r)"

definition ratingsInRange :: "db \<Rightarrow> bool" where
  "ratingsInRange d \<longleftrightarrow>
     (\<forall>off \<in> set (officials d).
        0 \<le> o_averageRating off \<and> o_averageRating off \<le> 5 \<and> 0 \<le> o_totalReviews off)"

definition storeInv :: "db \<Rightarrow> bool" where
  "storeInv d \<longleftrightarrow> reviewsInRange d \<and> ratingsInRange d"

text \<open>What \<open>reportReview\<close> does to one row: the flag is set when the id matches.\<close>

definition markReported :: "int \<Rightarrow> 'a review_scheme \<Rightarrow> 'a review_scheme" where
  "markReported ident r = (if r_id r = ident then r\<lparr> r_isReported := True \<rparr> else r)"

section \<open>Example stores\<close>

text \<open>
  \<open>exStore\<close>: official 1 has two valid reviews and one review whose reviewer has been
  deleted; official 2 has no review but still carries an old rating.
\<close>

definition exUser :: "int \<Rightarrow> user" where
  "exUser i = \<lparr> u_id = i, u_firstName = ''Pat'', u_lastName = ''Lee'',
                u_userType = ''Coach'', u_photoUrl = None \<rparr>"

definition exEvent :: "int \<Rightarrow> event" where
  "exEvent i = \<lparr> e_id = i, e_name = ''Dual'', e_date = 1000 \<rparr>"

definition exOfficial :: "int \<Rightarrow> int \<Rightarrow> int \<Rightarrow> official" where
  "exOfficial i avg n =
     \<lparr> o_id = i, o_firstName = ''Sam'', o_lastName = ''Ray'', o_age = 40,
       o_location = ''Ames'', o_association = ''IWOA'', o_yearsExperience = 10,
       o_photoUrl = None, o_averageRating = avg, o_totalReviews = n \<rparr>"

definition exReview :: "int \<Rightarrow> int \<Rightarrow> int \<Rightarrow> int \<Rightarrow> int \<Rightarrow> int \<Rightarrow> review" where
  "exReview i off usr ev score lastScore =
     \<lparr> r_id = i, r_officialId = off, r_userId = usr, r_eventId = ev,
       r_mechanics = score, r_professionalism = score, r_positioning = score,
       r_stalling = score, r_consistency = score, r_appearance = lastScore,
       r_comment = [], r_date = 100 * i, r_isReported = False, r_isAnonymous = False \<rparr>"

definition exStore :: db where
  "exStore =
     \<lparr> users = [exUser 7, exUser 8, exUser 9],
       officials = [exOfficial 1 0 0, exOfficial 2 3 4],
       events = [exEvent 3],
       eventOfficials = [\<lparr> eo_id = 1, eo_eventId = 3, eo_officialId = 1, eo_role = None \<rparr>],
       eventTeams = [],
       reviews = [exReview 1 1 7 3 4 5, exReview 2 1 8 3 4 4, exReview 3 1 99 3 1 1],
       officials_seq = 3,
       reviews_seq = 4 \<rparr>"

definition exInsert :: insertReview where
  "exInsert =
     \<lparr> ir_officialId = 1, ir_userId = 9, ir_eventId = 3,
       ir_mechanics = 5, ir_professionalism = 5, ir_positioning = 5,
       ir_stalling = 5, ir_consistency = 5, ir_appearance = 5,
       ir_comment = None, ir_isAnonymous = False \<rparr>"

definition exNewOfficial :: insertOfficial where
  "exNewOfficial =
     \<lparr> io_firstName = ''Kim'', io_lastName = ''Fox'', io_age = 35,
       io_location = ''Boone'', io_association = ''IWOA'', io_yearsExperience = 5,
       io_photoUrl = Some ''uploads/kim.png'' \<rparr>"

text \<open>
  \<open>twoStageStore\<close>: one official with two valid reviews, for which rounding the mean of
  the rounded category averages and rounding the mean of all twelve scores differ.
\<close>

definition twoStageStore :: db where
  "twoStageStore =
     \<lparr> users = [exUser 7, exUser 8],
       officials = [exOfficial 1 0 0],
       events = [exEvent 3],
       eventOfficials = [\<lparr> eo_id = 1, eo_eventId = 3, eo_officialId = 1, eo_role = None \<rparr>],
       eventTeams = [],
       reviews = [exReview 1 1 7 3 4 4, exReview 2 1 8 3 5 4],
       officials_seq = 2, reviews_seq = 3 \<rparr>"

text \<open>
  \<open>manyOfficials\<close>: twenty-one officials, none with a review, each still carrying the
  rating 5 from one review. \<open>cascadeStore\<close>: one official whose only review was written
  by user 7 at event 3, with the rating that review gives.
\<close>

definition manyOfficials :: db where
  "manyOfficials =
     \<lparr> users = [],
       officials = map (\<lambda>i. exOfficial i 5 1)
         [1, 2, 3, 4, 5, 6, 7, 8, 9, 10, 11, 12, 13, 14, 15, 16, 17, 18, 19, 20, 21],
       events = [], eventOfficials = [], eventTeams = [], reviews = [],
       officials_seq = 22, reviews_seq = 1 \<rparr>"

definition cascadeStore :: db where
  "cascadeStore =
     \<lparr> users = [exUser 7],
       officials = [exOfficial 1 5 1],
       events = [exEvent 3],
       eventOfficials = [\<lparr> eo_id = 1, eo_eventId = 3, eo_officialId = 1, eo_role = None \<rparr>],
       eventTeams = [],
       reviews = [exReview 1 1 7 3 5 5],
       officials_seq = 2, reviews_seq = 2 \<rparr>"

section \<open>Rounding\<close>

lemma Math_round_div:
  assumes "0 < c"
  shows "Math_round (of_int s / of_int c) = (2 * s + c) div (2 * c)"
proof -
  have "(of_int s / of_int c + 1 / 2 :: rat) = of_int (2 * s + c) / of_int (2 * c)"
    using assms by (simp add: field_simps)
  then show ?thesis
    unfolding Math_round_def by (simp only: floor_divide_of_int_eq)
qed

text \<open>
  \<open>Math.round\<close> rounds half up, and \<open>roundHalfUp\<close> determines its integer: the two
  lemmas make \<open>roundHalfUp x k\<close> the same as \<open>k = Math_round x\<close>.
\<close>

lemma Math_round_roundHalfUp: "roundHalfUp x (Math_round x)"
  unfolding Math_round_def roundHalfUp_def by linarith

lemma roundHalfUp_unique: "roundHalfUp x k \<Longrightarrow> k = Math_round x"
  unfolding Math_round_def roundHalfUp_def by linarith

lemma Math_round_of_int: "Math_round (of_int k) = k"
  unfolding Math_round_def by linarith

lemma Math_round_mono: "x \<le> y \<Longrightarrow> Math_round x \<le> Math_round y"
  unfolding Math_round_def by (simp add: floor_mono)

lemma Math_round_numeral_div:
  "Math_round (numeral a / numeral b) = (2 * numeral a + numeral b) div (2 * numeral b)"
  using Math_round_div [of "numeral b" "numeral a"] by simp

lemma Math_round_numeral: "Math_round (numeral a) = numeral a"
  using Math_round_of_int [of "numeral a"] by simp

lemma Math_round_0_1: "Math_round 0 = 0" "Math_round 1 = 1"
  using Math_round_of_int [of 0] Math_round_of_int [of 1] by simp_all

lemmas Math_round_eval = Math_round_numeral_div Math_round_numeral Math_round_0_1

lemma sum_list_bounds:
  assumes "\<forall>x \<in> set xs. a \<le> f x \<and> f x \<le> (b::int)"
  shows "a * int (length xs) \<le> sum_list (map f xs) \<and> sum_list (map f xs) \<le> b * int (length xs)"
  using assms by (induction xs) (auto simp: algebra_simps)

lemma Math_round_quotient_range:
  assumes "0 < n" "a * n \<le> s" "s \<le> b * n"
  shows "a \<le> Math_round (of_int s / of_int n) \<and> Math_round (of_int s / of_int n) \<le> b"
proof -
  have n: "(0::rat) < of_int n" using assms(1) by simp
  have "(of_int (a * n) :: rat) \<le> of_int s" using assms(2) by (simp only: of_int_le_iff)
  then have "(of_int a :: rat) \<le> of_int s / of_int n"
    using n by (simp add: pos_le_divide_eq)
  from Math_round_mono [OF this] have lo: "a \<le> Math_round (of_int s / of_int n)"
    by (simp add: Math_round_of_int)
  have "(of_int s :: rat) \<le> of_int (b * n)" using assms(3) by (simp only: of_int_le_iff)
  then have "of_int s / of_int n \<le> (of_int b :: rat)"
    using n by (simp add: pos_divide_le_eq)
  from Math_round_mono [OF this] have hi: "Math_round (of_int s / of_int n) \<le> b"
    by (simp add: Math_round_of_int)
  show ?thesis using lo hi by simp
qed

lemma Math_round_six_range:
  assumes "a \<le> x1 \<and> x1 \<le> b" "a \<le> x2 \<and> x2 \<le> b" "a \<le> x3 \<and> x3 \<le> b"
    "a \<le> x4 \<and> x4 \<le> b" "a \<le> x5 \<and> x5 \<le> b" "a \<le> x6 \<and> x6 \<le> b"
  shows "a \<le> Math_round (of_int (x1 + x2 + x3 + x4 + x5 + x6) / 6)
       \<and> Math_round (of_int (x1 + x2 + x3 + x4 + x5 + x6) / 6) \<le> b"
proof -
  have "a * 6 \<le> x1 + x2 + x3 + x4 + x5 + x6" "x1 + x2 + x3 + x4 + x5 + x6 \<le> b * 6"
    using assms by linarith+
  from Math_round_quotient_range [OF _ this, of] show ?thesis by simp
qed

section \<open>Sums and sorting\<close>

lemma foldl_addReview:
  "foldl addReview acc rows =
     \<lparr> s_mechanics = s_mechanics acc + sum_list (map r_mechanics rows),
       s_professionalism = s_professionalism acc + sum_list (map r_professionalism rows),
       s_positioning = s_positioning acc + sum_list (map r_positioning rows),
       s_stalling = s_stalling acc + sum_list (map r_stalling rows),
       s_consistency = s_consistency acc + sum_list (map r_consistency rows),
       s_appearance = s_appearance acc + sum_list (map r_appearance rows) \<rparr>"
  by (induction rows arbitrary: acc) (simp_all add: addReview_def)

lemma sum_list_insort_key:
  "sum_list (map h (insort_key f x xs)) = h x + (sum_list (map h xs) :: int)"
  by (induction xs) simp_all

lemma sum_list_sort_key:
  "sum_list (map h (sort_key f xs)) = (sum_list (map h xs) :: int)"
  by (induction xs) (simp_all add: sum_list_insort_key)

lemma insort_key_map:
  assumes "\<And>y. f (g y) = f y"
  shows "insort_key f (g x) (map g xs) = map g (insort_key f x xs)"
  by (induction xs) (simp_all add: assms)

lemma sort_key_map:
  assumes "\<And>y. f (g y) = f y"
  shows "sort_key f (map g xs) = map g (sort_key f xs)"
  by (induction xs) (simp_all add: insort_key_map [of f g] assms)

section \<open>The joined rows of an official\<close>

lemma joinRow_fields [simp]:
  "r_id (joinRow r u e) = r_id r"
  "r_officialId (joinRow r u e) = r_officialId r"
  "r_userId (joinRow r u e) = r_userId r"
  "r_eventId (joinRow r u e) = r_eventId r"
  "r_mechanics (joinRow r u e) = r_mechanics r"
  "r_professionalism (joinRow r u e) = r_professionalism r"
  "r_positioning (joinRow r u e) = r_positioning r"
  "r_stalling (joinRow r u e) = r_stalling r"
  "r_consistency (joinRow r u e) = r_consistency r"
  "r_appearance (joinRow r u e) = r_appearance r"
  "r_date (joinRow r u e) = r_date r"
  by (simp_all add: joinRow_def)

lemma scoresInRange_joinRow [simp]: "scoresInRange (joinRow r u e) = scoresInRange r"
  by (simp add: scoresInRange_def)

lemma set_joinReviews:
  "set (joinReviews P d) =
     {joinRow r u e | r u e. r \<in> set (reviews d) \<and> u \<in> set (users d) \<and> e \<in> set (events d) \<and>
        r_userId r = u_id u \<and> r_eventId r = e_id e \<and> P r}"
  by (auto simp: joinReviews_def)

lemma set_getReviewsForOfficial:
  "set (getReviewsForOfficial i d) =
     {joinRow r u e | r u e. r \<in> set (reviews d) \<and> u \<in> set (users d) \<and> e \<in> set (events d) \<and>
        r_userId r = u_id u \<and> r_eventId r = e_id e \<and> r_officialId r = i}"
  by (simp add: getReviewsForOfficial_def set_joinReviews)

lemma getReviewsForOfficial_empty_iff:
  "getReviewsForOfficial i d = [] \<longleftrightarrow> validReviews i d = []"
proof -
  have "getReviewsForOfficial i d = [] \<longleftrightarrow> set (getReviewsForOfficial i d) = {}"
    by simp
  also have "\<dots> \<longleftrightarrow> set (validReviews i d) = {}"
    unfolding set_getReviewsForOfficial validReviews_def by auto
  also have "\<dots> \<longleftrightarrow> validReviews i d = []"
    by simp
  finally show ?thesis .
qed

lemma rows_in_range:
  assumes "\<forall>r \<in> set (validReviews i d). scoresInRange r"
  shows "\<forall>row \<in> set (getReviewsForOfficial i d). scoresInRange row"
  using assms unfolding set_getReviewsForOfficial validReviews_def by auto

lemma concat_unique_key:
  assumes "distinct (map key xs)" and "\<And>x. key x = k \<Longrightarrow> map h (g x) = ys"
  shows "map h (concat (map (\<lambda>x. if key x = k then g x else []) xs)) =
           (if k \<in> key ` set xs then ys else [])"
  using assms(1)
proof (induction xs)
  case Nil
  then show ?case by simp
next
  case (Cons x xs)
  then show ?case by (auto simp: assms(2))
qed

lemma map_join_one:
  assumes du: "distinct (map u_id us)" and de: "distinct (map e_id es)"
    and h: "\<And>r u e. h (joinRow r u e) = h' r"
  shows "map h (concat (map (\<lambda>u. concat (map (\<lambda>e.
             if r_userId r = u_id u \<and> r_eventId r = e_id e \<and> P r then [joinRow r u e] else []) es)) us))
         = (if P r \<and> r_userId r \<in> u_id ` set us \<and> r_eventId r \<in> e_id ` set es then [h' r] else [])"
proof -
  have inner: "\<And>u. map h (concat (map (\<lambda>e. if e_id e = r_eventId r then [joinRow r u e] else []) es))
      = (if r_eventId r \<in> e_id ` set es then [h' r] else [])"
    by (rule concat_unique_key [OF de]) (simp add: h)
  have eq: "(\<lambda>u. concat (map (\<lambda>e.
             if r_userId r = u_id u \<and> r_eventId r = e_id e \<and> P r then [joinRow r u e] else []) es))
      = (\<lambda>u. if u_id u = r_userId r
              then (if P r then concat (map (\<lambda>e. if e_id e = r_eventId r then [joinRow r u e] else []) es) else [])
              else [])"
    by (rule ext) (auto intro!: arg_cong [where f = concat] simp: eq_commute)
  show ?thesis
    unfolding eq
    by (subst concat_unique_key [OF du, where ys = "if P r \<and> r_eventId r \<in> e_id ` set es then [h' r] else []"])
       (auto simp: inner intro: rev_image_eqI)
qed

lemma map_concat_filter:
  assumes "\<And>x. x \<in> set xs \<Longrightarrow> map h (g x) = (if Q x then [h' x] else [])"
  shows "map h (concat (map g xs)) = map h' (filter Q xs)"
  using assms by (induction xs) simp_all

lemma map_joinReviews:
  assumes du: "distinct (map u_id (users d))" and de: "distinct (map e_id (events d))"
    and h: "\<And>r u e. h (joinRow r u e) = h' r"
  shows "map h (joinReviews P d) =
           map h' (filter (\<lambda>r. P r \<and> r_userId r \<in> u_id ` set (users d) \<and>
                                r_eventId r \<in> e_id ` set (events d)) (reviews d))"
  unfolding joinReviews_def
  by (rule map_concat_filter) (rule map_join_one [where h = h and h' = h', OF du de h])

lemma sum_getReviewsForOfficial:
  assumes du: "distinct (map u_id (users d))" and de: "distinct (map e_id (events d))"
    and h: "\<And>r u e. h (joinRow r u e) = h' r"
  shows "sum_list (map h (getReviewsForOfficial i d)) = (sum_list (map h' (validReviews i d)) :: int)"
  unfolding getReviewsForOfficial_def validReviews_def sum_list_sort_key
  by (simp only: map_joinReviews [where h = h and h' = h', OF du de h])

lemma length_getReviewsForOfficial:
  assumes du: "distinct (map u_id (users d))" and de: "distinct (map e_id (events d))"
  shows "length (getReviewsForOfficial i d) = length (validReviews i d)"
proof -
  have "map (\<lambda>x. ()) (joinReviews (\<lambda>r. r_officialId r = i) d) = map (\<lambda>x. ()) (validReviews i d)"
    unfolding validReviews_def by (rule map_joinReviews [where h = "\<lambda>x. ()" and h' = "\<lambda>x. ()", OF du de]) simp
  then have "length (joinReviews (\<lambda>r. r_officialId r = i) d) = length (validReviews i d)"
    by (rule map_eq_imp_length_eq)
  then show ?thesis by (simp add: getReviewsForOfficial_def)
qed

lemma joinReviews_cong:
  "users d' = users d \<Longrightarrow> events d' = events d \<Longrightarrow> reviews d' = reviews d \<Longrightarrow>
   joinReviews P d' = joinReviews P d"
  by (simp add: joinReviews_def)

lemma getReviewsForOfficial_cong:
  assumes "users d' = users d" "events d' = events d" "reviews d' = reviews d"
  shows "getReviewsForOfficial i d' = getReviewsForOfficial i d"
  unfolding getReviewsForOfficial_def
  by (simp only: joinReviews_cong [OF assms])

section \<open>Category averages\<close>

lemma averagesOf_nonempty:
  assumes "rows \<noteq> []"
  shows "mechanics (averagesOf rows) =
           Math_round (of_int (sum_list (map r_mechanics rows)) / of_int (int (length rows)))"
    and "professionalism (averagesOf rows) =
           Math_round (of_int (sum_list (map r_professionalism rows)) / of_int (int (length rows)))"
    and "positioning (averagesOf rows) =
           Math_round (of_int (sum_list (map r_positioning rows)) / of_int (int (length rows)))"
    and "stalling (averagesOf rows) =
           Math_round (of_int (sum_list (map r_stalling rows)) / of_int (int (length rows)))"
    and "consistency (averagesOf rows) =
           Math_round (of_int (sum_list (map r_consistency rows)) / of_int (int (length rows)))"
    and "appearance (averagesOf rows) =
           Math_round (of_int (sum_list (map r_appearance rows)) / of_int (int (length rows)))"
    and "overall (averagesOf rows) =
           Math_round (of_int (mechanics (averagesOf rows) + professionalism (averagesOf rows)
             + positioning (averagesOf rows) + stalling (averagesOf rows)
             + consistency (averagesOf rows) + appearance (averagesOf rows)) / 6)"
  using assms by (simp_all add: averagesOf_def Let_def foldl_addReview zeroSums_def)

lemma averagesOf_empty:
  "averagesOf [] = \<lparr> mechanics = 0, professionalism = 0, positioning = 0, stalling = 0,
          consistency = 0, appearance = 0, overall = 0 \<rparr>"
  by (simp add: averagesOf_def)

lemma averagesOf_range:
  assumes ne: "rows \<noteq> []" and rng: "\<forall>row \<in> set rows. scoresInRange row"
  shows "1 \<le> mechanics (averagesOf rows) \<and> mechanics (averagesOf rows) \<le> 5"
    and "1 \<le> professionalism (averagesOf rows) \<and> professionalism (averagesOf rows) \<le> 5"
    and "1 \<le> positioning (averagesOf rows) \<and> positioning (averagesOf rows) \<le> 5"
    and "1 \<le> stalling (averagesOf rows) \<and> stalling (averagesOf rows) \<le> 5"
    and "1 \<le> consistency (averagesOf rows) \<and> consistency (averagesOf rows) \<le> 5"
    and "1 \<le> appearance (averagesOf rows) \<and> appearance (averagesOf rows) \<le> 5"
proof -
  have n: "0 < int (length rows)" using ne by simp
  have cat: "1 \<le> Math_round (of_int (sum_list (map f rows)) / of_int (int (length rows)))
           \<and> Math_round (of_int (sum_list (map f rows)) / of_int (int (length rows))) \<le> 5"
    if "\<forall>row \<in> set rows. 1 \<le> f row \<and> f row \<le> 5" for f :: "Review \<Rightarrow> int"
    using Math_round_quotient_range [OF n] sum_list_bounds [OF that] by blast
  show "1 \<le> mechanics (averagesOf rows) \<and> mechanics (averagesOf rows) \<le> 5"
    unfolding averagesOf_nonempty(1) [OF ne] using rng by (intro cat) (simp add: scoresInRange_def)
  show "1 \<le> professionalism (averagesOf rows) \<and> professionalism (averagesOf rows) \<le> 5"
    unfolding averagesOf_nonempty(2) [OF ne] using rng by (intro cat) (simp add: scoresInRange_def)
  show "1 \<le> positioning (averagesOf rows) \<and> positioning (averagesOf rows) \<le> 5"
    unfolding averagesOf_nonempty(3) [OF ne] using rng by (intro cat) (simp add: scoresInRange_def)
  show "1 \<le> stalling (averagesOf rows) \<and> stalling (averagesOf rows) \<le> 5"
    unfolding averagesOf_nonempty(4) [OF ne] using rng by (intro cat) (simp add: scoresInRange_def)
  show "1 \<le> consistency (averagesOf rows) \<and> consistency (averagesOf rows) \<le> 5"
    unfolding averagesOf_nonempty(5) [OF ne] using rng by (intro cat) (simp add: scoresInRange_def)
  show "1 \<le> appearance (averagesOf rows) \<and> appearance (averagesOf rows) \<le> 5"
    unfolding averagesOf_nonempty(6) [OF ne] using rng by (intro cat) (simp add: scoresInRange_def)
qed

lemma averagesOf_overall_range:
  assumes ne: "rows \<noteq> []" and rng: "\<forall>row \<in> set rows. scoresInRange row"
  shows "1 \<le> overall (averagesOf rows) \<and> overall (averagesOf rows) \<le> 5"
  unfolding averagesOf_nonempty(7) [OF ne]
  by (rule Math_round_six_range) (rule averagesOf_range [OF ne rng])+

section \<open>The recompute of one official\<close>

lemma updateOfficialRating_frame [simp]:
  "users (updateOfficialRating i d) = users d"
  "events (updateOfficialRating i d) = events d"
  "reviews (updateOfficialRating i d) = reviews d"
  "eventOfficials (updateOfficialRating i d) = eventOfficials d"
  "eventTeams (updateOfficialRating i d) = eventTeams d"
  "officials_seq (updateOfficialRating i d) = officials_seq d"
  "reviews_seq (updateOfficialRating i d) = reviews_seq d"
  by (simp_all add: updateOfficialRating_def Let_def)

lemma officials_updateOfficialRating:
  "officials (updateOfficialRating i d) =
     map (\<lambda>off. if o_id off = i
                 then off\<lparr> o_averageRating := overall (calculateCategoryAverages i d),
                           o_totalReviews := int (length (getReviewsForOfficial i d)) \<rparr>
                 else off) (officials d)"
  by (simp add: updateOfficialRating_def Let_def)

lemma getReviewsForOfficial_update [simp]:
  "getReviewsForOfficial j (updateOfficialRating i d) = getReviewsForOfficial j d"
  by (rule getReviewsForOfficial_cong) simp_all

lemma calculateCategoryAverages_update [simp]:
  "calculateCategoryAverages j (updateOfficialRating i d) = calculateCategoryAverages j d"
  by (simp add: calculateCategoryAverages_def)

lemma updateOfficialRating_twice:
  "updateOfficialRating i (updateOfficialRating i d) = updateOfficialRating i d"
proof -
  let ?g = "\<lambda>off. if o_id off = i
                 then off\<lparr> o_averageRating := overall (calculateCategoryAverages i d),
                           o_totalReviews := int (length (getReviewsForOfficial i d)) \<rparr>
                 else off"
  have gg: "?g (?g off) = ?g off" for off :: official by simp
  have "officials (updateOfficialRating i (updateOfficialRating i d)) = map ?g (map ?g (officials d))"
    by (simp only: officials_updateOfficialRating calculateCategoryAverages_update
          getReviewsForOfficial_update)
  also have "\<dots> = map ?g (officials d)"
    unfolding map_map o_def gg ..
  finally have "officials (updateOfficialRating i (updateOfficialRating i d)) =
      officials (updateOfficialRating i d)"
    by (simp only: officials_updateOfficialRating)
  then show ?thesis
    by (intro db.equality) simp_all
qed

lemma persisted_rating:
  assumes "off \<in> set (officials (updateOfficialRating i d))" and "o_id off = i"
  shows "o_averageRating off = overall (calculateCategoryAverages i d)
       \<and> o_totalReviews off = int (length (getReviewsForOfficial i d))"
proof -
  from assms(1) obtain x where x: "x \<in> set (officials d)"
    and off: "off = (if o_id x = i
                 then x\<lparr> o_averageRating := overall (calculateCategoryAverages i d),
                         o_totalReviews := int (length (getReviewsForOfficial i d)) \<rparr>
                 else x)"
    unfolding officials_updateOfficialRating set_map by blast
  show ?thesis
  proof (cases "o_id x = i")
    case True
    then show ?thesis using off by simp
  next
    case False
    then show ?thesis using off assms(2) by simp
  qed
qed

lemma other_rating:
  assumes "off \<in> set (officials (updateOfficialRating i d))" and "o_id off \<noteq> i"
  shows "off \<in> set (officials d)"
proof -
  from assms(1) obtain x where x: "x \<in> set (officials d)"
    and off: "off = (if o_id x = i
                 then x\<lparr> o_averageRating := overall (calculateCategoryAverages i d),
                         o_totalReviews := int (length (getReviewsForOfficial i d)) \<rparr>
                 else x)"
    unfolding officials_updateOfficialRating set_map by blast
  show ?thesis
  proof (cases "o_id x = i")
    case True
    then show ?thesis using off assms(2) by simp
  next
    case False
    then show ?thesis using off x by simp
  qed
qed

lemma updateOfficialRating_no_rows:
  assumes "reviews d = []"
  shows "updateOfficialRating i d =
    d\<lparr> officials := map (\<lambda>off. if o_id off = i
                          then off\<lparr> o_averageRating := 0, o_totalReviews := 0 \<rparr>
                          else off) (officials d) \<rparr>"
  using assms
  by (simp add: updateOfficialRating_def calculateCategoryAverages_def getReviewsForOfficial_def
        joinReviews_def averagesOf_def)

section \<open>Reporting a review\<close>

lemma markReported_fields [simp]:
  "r_id (markReported ident r) = r_id r"
  "r_officialId (markReported ident r) = r_officialId r"
  "r_userId (markReported ident r) = r_userId r"
  "r_eventId (markReported ident r) = r_eventId r"
  "r_mechanics (markReported ident r) = r_mechanics r"
  "r_professionalism (markReported ident r) = r_professionalism r"
  "r_positioning (markReported ident r) = r_positioning r"
  "r_stalling (markReported ident r) = r_stalling r"
  "r_consistency (markReported ident r) = r_consistency r"
  "r_appearance (markReported ident r) = r_appearance r"
  "r_date (markReported ident r) = r_date r"
  by (simp_all add: markReported_def)

lemma scoresInRange_markReported [simp]:
  "scoresInRange (markReported ident r) = scoresInRange r"
  by (simp add: scoresInRange_def)

lemma reportReview_frame [simp]:
  "reviews (reportReview ident d) = map (markReported ident) (reviews d)"
  "officials (reportReview ident d) = officials d"
  "users (reportReview ident d) = users d"
  "events (reportReview ident d) = events d"
  "eventOfficials (reportReview ident d) = eventOfficials d"
  "eventTeams (reportReview ident d) = eventTeams d"
  by (simp_all add: reportReview_def markReported_def [abs_def])

lemma joinRow_markReported:
  "joinRow (markReported ident r) u e = markReported ident (joinRow r u e)"
  by (simp add: joinRow_def markReported_def)

lemma join_inner_markReported:
  assumes "P (markReported ident r) = P r"
  shows "concat (map (\<lambda>u. concat (map (\<lambda>e.
            if r_userId (markReported ident r) = u_id u \<and> r_eventId (markReported ident r) = e_id e
               \<and> P (markReported ident r)
            then [joinRow (markReported ident r) u e] else []) es)) us)
       = map (markReported ident) (concat (map (\<lambda>u. concat (map (\<lambda>e.
            if r_userId r = u_id u \<and> r_eventId r = e_id e \<and> P r
            then [joinRow r u e] else []) es)) us))"
proof -
  have f: "r_userId (markReported ident r) = r_userId r" "r_eventId (markReported ident r) = r_eventId r"
    by simp_all
  have inner: "concat (map (\<lambda>e. if r_userId r = u_id u \<and> r_eventId r = e_id e \<and> P r
            then [joinRow (markReported ident r) u e] else []) es)
       = map (markReported ident) (concat (map (\<lambda>e.
            if r_userId r = u_id u \<and> r_eventId r = e_id e \<and> P r
            then [joinRow r u e] else []) es))" for u
    by (induction es) (simp_all add: joinRow_markReported)
  show ?thesis
    unfolding f assms inner by (induction us) simp_all
qed

lemma joinReviews_reportReview:
  assumes "\<And>r. P (markReported ident r) = P r"
  shows "joinReviews P (reportReview ident d) = map (markReported ident) (joinReviews P d)"
proof -
  have "concat (map (\<lambda>r. concat (map (\<lambda>u. concat (map (\<lambda>e.
            if r_userId r = u_id u \<and> r_eventId r = e_id e \<and> P r
            then [joinRow r u e] else []) es)) us)) (map (markReported ident) rs))
      = map (markReported ident) (concat (map (\<lambda>r. concat (map (\<lambda>u. concat (map (\<lambda>e.
            if r_userId r = u_id u \<and> r_eventId r = e_id e \<and> P r
            then [joinRow r u e] else []) es)) us)) rs))" for rs us es
    by (induction rs) (simp_all only: list.map concat.simps map_append
          join_inner_markReported [where P = P, OF assms])
  then show ?thesis
    by (simp add: joinReviews_def)
qed

lemma getReviewsForOfficial_reportReview:
  "getReviewsForOfficial oid (reportReview ident d) =
     map (markReported ident) (getReviewsForOfficial oid d)"
proof -
  have "joinReviews (\<lambda>r. r_officialId r = oid) (reportReview ident d)
      = map (markReported ident) (joinReviews (\<lambda>r. r_officialId r = oid) d)"
    by (rule joinReviews_reportReview) simp
  then show ?thesis
    unfolding getReviewsForOfficial_def
    by (simp add: sort_key_map [where g = "markReported ident"])
qed

lemma averagesOf_markReported:
  "averagesOf (map (markReported ident) rows) = averagesOf rows"
proof -
  have "foldl addReview zeroSums (map (markReported ident) rows) = foldl addReview zeroSums rows"
    by (simp add: foldl_addReview o_def)
  then show ?thesis by (simp add: averagesOf_def)
qed

section \<open>Deleting a review\<close>

lemma deleteReview_absent:
  assumes "\<forall>r \<in> set (reviews d). r_id r \<noteq> ident"
  shows "deleteReview ident d = (Inl (Error ''Review not found''), d)"
proof -
  have "filter (\<lambda>r. r_id r = ident) (reviews d) = []"
    using assms by (simp add: filter_empty_conv)
  then show ?thesis by (simp add: deleteReview_def)
qed

lemma deleteReview_present:
  assumes "filter (\<lambda>r. r_id r = ident) (reviews d) = rv # rest"
  shows "deleteReview ident d =
           (Inr (), updateOfficialRating (r_officialId rv)
                      (d\<lparr> reviews := filter (\<lambda>r. r_id r \<noteq> ident) (reviews d) \<rparr>))"
  using assms by (simp add: deleteReview_def Let_def)

lemma filter_out_unique:
  assumes "distinct (map key xs)" and "x \<in> set xs"
  shows "filter (\<lambda>y. key y \<noteq> key x) xs = remove1 x xs"
  using assms
proof (induction xs)
  case Nil
  then show ?case by simp
next
  case (Cons a xs)
  show ?case
  proof (cases "a = x")
    case True
    have "key x \<notin> key ` set xs" using Cons.prems(1) True by simp
    then have "\<forall>y \<in> set xs. key y \<noteq> key x" by (metis imageI)
    then have "filter (\<lambda>y. key y \<noteq> key x) xs = xs" by (simp add: filter_id_conv)
    then show ?thesis using True by simp
  next
    case False
    then have "x \<in> set xs" using Cons.prems(2) by simp
    moreover have "key a \<notin> key ` set xs" using Cons.prems(1) by simp
    then have "key a \<noteq> key x" using \<open>x \<in> set xs\<close> by (metis imageI)
    ultimately show ?thesis using Cons False by simp
  qed
qed

section \<open>The invariant\<close>

lemma ratingsInRange_update:
  assumes rv: "reviewsInRange d" and rt: "ratingsInRange d"
  shows "ratingsInRange (updateOfficialRating i d)"
  unfolding ratingsInRange_def
proof
  fix off
  assume mem: "off \<in> set (officials (updateOfficialRating i d))"
  show "0 \<le> o_averageRating off \<and> o_averageRating off \<le> 5 \<and> 0 \<le> o_totalReviews off"
  proof (cases "o_id off = i")
    case True
    note p = persisted_rating [OF mem True]
    have rng: "\<forall>row \<in> set (getReviewsForOfficial i d). scoresInRange row"
      using rv by (intro rows_in_range) (simp add: reviewsInRange_def validReviews_def)
    have "0 \<le> overall (calculateCategoryAverages i d) \<and> overall (calculateCategoryAverages i d) \<le> 5"
    proof (cases "getReviewsForOfficial i d = []")
      case True
      then show ?thesis by (simp add: calculateCategoryAverages_def averagesOf_empty)
    next
      case False
      from averagesOf_overall_range [OF False rng] show ?thesis
        by (simp add: calculateCategoryAverages_def)
    qed
    then show ?thesis using p by simp
  next
    case False
    from other_rating [OF mem False] rt show ?thesis
      by (simp add: ratingsInRange_def)
  qed
qed

lemma storeInv_update:
  assumes "storeInv d"
  shows "storeInv (updateOfficialRating i d)"
  using assms ratingsInRange_update [of d i]
  by (simp add: storeInv_def reviewsInRange_def)

lemma storeInv_refreshLoop:
  assumes "storeInv d"
  shows "storeInv (snd (refreshLoop fails data d))"
  using assms
proof (induction data arbitrary: d)
  case Nil
  then show ?case by simp
next
  case (Cons off rest)
  show ?case
  proof (cases "fails (o_id off)")
    case True
    then show ?thesis using Cons.prems by (simp add: attemptUpdateOfficialRating_def)
  next
    case False
    then show ?thesis
      using Cons.IH [OF storeInv_update [OF Cons.prems, of "o_id off"]]
      by (simp add: attemptUpdateOfficialRating_def)
  qed
qed

lemma storeInv_refreshAll:
  assumes "storeInv d"
  shows "storeInv (snd (refreshAllOfficialRatings fails d))"
  using assms storeInv_refreshLoop [OF assms]
  by (simp add: refreshAllOfficialRatings_def getOfficials_def)

lemma storeInv_createOfficial:
  assumes "storeInv d"
  shows "storeInv (snd (createOfficial off d))"
  using assms
  by (simp add: storeInv_def reviewsInRange_def ratingsInRange_def createOfficial_def Let_def)

lemma storeInv_createReview:
  assumes "storeInv d" and "insertInRange review"
  shows "storeInv (snd (createReview review now d))"
proof -
  let ?new = "\<lparr> r_id = reviews_seq d,
                        r_officialId = ir_officialId review,
                        r_userId = ir_userId review,
                        r_eventId = ir_eventId review,
                        r_mechanics = ir_mechanics review,
                        r_professionalism = ir_professionalism review,
                        r_positioning = ir_positioning review,
                        r_stalling = ir_stalling review,
                        r_consistency = ir_consistency review,
                        r_appearance = ir_appearance review,
                        r_comment = (case ir_comment review of None \<Rightarrow> [] | Some c \<Rightarrow> c),
                        r_date = now,
                        r_isReported = False,
                        r_isAnonymous = ir_isAnonymous review \<rparr>"
  have "storeInv (d\<lparr> reviews := reviews d @ [?new], reviews_seq := reviews_seq d + 1 \<rparr>)"
    using assms
    by (simp add: storeInv_def reviewsInRange_def ratingsInRange_def insertInRange_def
          scoresInRange_def)
  from storeInv_update [OF this] assms(1) show ?thesis
    by (simp add: createReview_def Let_def)
qed

lemma storeInv_deleteReview:
  assumes "storeInv d"
  shows "storeInv (snd (deleteReview i d))"
proof (cases "filter (\<lambda>r. r_id r = i) (reviews d)")
  case Nil
  then show ?thesis using assms by (simp add: deleteReview_def)
next
  case (Cons rv rest)
  have "storeInv (d\<lparr> reviews := filter (\<lambda>r. r_id r \<noteq> i) (reviews d) \<rparr>)"
    using assms by (simp add: storeInv_def reviewsInRange_def ratingsInRange_def)
  from storeInv_update [OF this] show ?thesis
    by (simp add: deleteReview_present [OF Cons])
qed

lemma storeInv_reportReview:
  assumes "storeInv d"
  shows "storeInv (reportReview i d)"
  using assms by (simp add: storeInv_def reviewsInRange_def ratingsInRange_def)

lemma storeInv_deleteUser:
  assumes "storeInv d"
  shows "storeInv (deleteUser i d)"
  using assms by (simp add: storeInv_def reviewsInRange_def ratingsInRange_def deleteUser_def Let_def)

lemma storeInv_deleteEvent:
  assumes "storeInv d"
  shows "storeInv (deleteEvent i d)"
  using assms by (simp add: storeInv_def reviewsInRange_def ratingsInRange_def deleteEvent_def Let_def)

lemma storeInv_deleteOfficial:
  assumes "storeInv d"
  shows "storeInv (deleteOfficial i d)"
  using assms by (simp add: storeInv_def reviewsInRange_def ratingsInRange_def deleteOfficial_def Let_def)

section \<open>The example stores, evaluated\<close>

lemmas ex_defs = exStore_def exUser_def exEvent_def exOfficial_def exReview_def

lemma exOfficial_simps:
  "o_id (exOfficial i a n) = i"
  "o_averageRating (exOfficial i a n) = a"
  "o_totalReviews (exOfficial i a n) = n"
  "(exOfficial i a n)\<lparr> o_averageRating := a', o_totalReviews := n' \<rparr> = exOfficial i a' n'"
  by (simp_all add: exOfficial_def)

lemma exStore_fields:
  "users exStore = [exUser 7, exUser 8, exUser 9]"
  "officials exStore = [exOfficial 1 0 0, exOfficial 2 3 4]"
  "events exStore = [exEvent 3]"
  "eventOfficials exStore = [\<lparr> eo_id = 1, eo_eventId = 3, eo_officialId = 1, eo_role = None \<rparr>]"
  "reviews exStore = [exReview 1 1 7 3 4 5, exReview 2 1 8 3 4 4, exReview 3 1 99 3 1 1]"
  "reviews_seq exStore = 4"
  by (simp_all add: exStore_def)

lemma exStore_valid1: "validReviews 1 exStore = [exReview 1 1 7 3 4 5, exReview 2 1 8 3 4 4]"
  by (simp add: validReviews_def ex_defs)

lemma exStore_valid2: "validReviews 2 exStore = []"
  by (simp add: validReviews_def ex_defs)

lemma exStore_rows1: "getReviewsForOfficial 1 exStore =
   [joinRow (exReview 2 1 8 3 4 4) (exUser 8) (exEvent 3), joinRow (exReview 1 1 7 3 4 5) (exUser 7) (exEvent 3)]"
  by (simp add: getReviewsForOfficial_def joinReviews_def ex_defs)

lemma exStore_rows2: "getReviewsForOfficial 2 exStore = []"
  by (simp add: getReviewsForOfficial_def joinReviews_def ex_defs)

lemma exStore_avg1: "calculateCategoryAverages 1 exStore =
    \<lparr> mechanics = 4, professionalism = 4, positioning = 4, stalling = 4,
             consistency = 4, appearance = 5, overall = 4 \<rparr>"
  by (simp add: calculateCategoryAverages_def exStore_rows1 averagesOf_def Let_def
      zeroSums_def addReview_def Math_round_eval exReview_def)

lemma exStore_update1: "officials (updateOfficialRating 1 exStore) = [exOfficial 1 4 2, exOfficial 2 3 4]"
  by (simp add: officials_updateOfficialRating exStore_avg1 exStore_rows1 exStore_fields exOfficial_simps)

lemma exStore_refresh_ok:
  "officials (snd (refreshAllOfficialRatings (\<lambda>i. False) exStore)) = [exOfficial 1 4 2, exOfficial 2 0 0]"
proof -
  have "officials (updateOfficialRating 2 (updateOfficialRating 1 exStore)) =
      [exOfficial 1 4 2, exOfficial 2 0 0]"
    by (simp add: officials_updateOfficialRating [of 2] calculateCategoryAverages_def
          exStore_rows2 averagesOf_empty exStore_update1 exOfficial_simps)
  then show ?thesis
    by (simp add: refreshAllOfficialRatings_def getOfficials_def attemptUpdateOfficialRating_def
          exStore_fields exOfficial_simps)
qed

lemma exStore_refresh_fail:
  "refreshAllOfficialRatings (\<lambda>i. i = 1) exStore = (Inl StorageFailure, exStore)"
  by (simp add: refreshAllOfficialRatings_def getOfficials_def attemptUpdateOfficialRating_def
        exStore_fields exOfficial_simps)

lemma storeInv_exStore: "storeInv exStore"
  by (simp add: storeInv_def reviewsInRange_def ratingsInRange_def scoresInRange_def
        exStore_fields exReview_def exOfficial_simps)

lemma refreshLoop_no_reviews:
  assumes "reviews d = []"
  shows "refreshLoop (\<lambda>i. False) data d =
    (Inr (), d\<lparr> officials := map (\<lambda>off. if o_id off \<in> o_id ` set data
                          then off\<lparr> o_averageRating := 0, o_totalReviews := 0 \<rparr>
                          else off) (officials d) \<rparr>)"
  using assms
proof (induction data arbitrary: d)
  case Nil
  then show ?case by simp
next
  case (Cons x rest)
  let ?d1 = "updateOfficialRating (o_id x) d"
  have r1: "reviews ?d1 = []" using Cons.prems by simp
  have step: "refreshLoop (\<lambda>i. False) (x # rest) d = refreshLoop (\<lambda>i. False) rest ?d1"
    by (simp add: attemptUpdateOfficialRating_def)
  have o1: "officials ?d1 = map (\<lambda>off. if o_id off = o_id x
                          then off\<lparr> o_averageRating := 0, o_totalReviews := 0 \<rparr>
                          else off) (officials d)"
    by (simp add: updateOfficialRating_no_rows [OF Cons.prems])
  have d1: "?d1 = d\<lparr> officials := officials ?d1 \<rparr>"
    by (simp add: updateOfficialRating_def Let_def)
  show ?case
    unfolding step Cons.IH [OF r1]
    by (subst (1) d1) (auto simp: o1 o_def intro!: arg_cong [where f = "\<lambda>x. db.officials_update x d"])
qed

theorem manyOfficials_refresh:
  "refreshAllOfficialRatings (\<lambda>i. False) manyOfficials =
     (Inr (), manyOfficials\<lparr> officials :=
        map (\<lambda>i. exOfficial i 0 0)
          [1, 2, 3, 4, 5, 6, 7, 8, 9, 10, 11, 12, 13, 14, 15, 16, 17, 18, 19, 20]
        @ [exOfficial 21 5 1] \<rparr>)"
proof -
  have r: "reviews manyOfficials = []" by (simp add: manyOfficials_def)
  have o: "officials manyOfficials = map (\<lambda>i. exOfficial i 5 1)
         [1, 2, 3, 4, 5, 6, 7, 8, 9, 10, 11, 12, 13, 14, 15, 16, 17, 18, 19, 20, 21]"
    by (simp add: manyOfficials_def)
  show ?thesis
    unfolding refreshAllOfficialRatings_def getOfficials_def refreshLoop_no_reviews [OF r]
    by (simp add: o exOfficial_simps)
qed

lemma cascade_rows: "getReviewsForOfficial 1 cascadeStore =
    [joinRow (exReview 1 1 7 3 5 5) (exUser 7) (exEvent 3)]"
  by (simp add: getReviewsForOfficial_def joinReviews_def cascadeStore_def exUser_def exEvent_def exReview_def)

lemma cascade_officials: "officials cascadeStore = [exOfficial 1 5 1]"
  by (simp add: cascadeStore_def)

lemma twoStage_rows: "getReviewsForOfficial 1 twoStageStore =
   [joinRow (exReview 2 1 8 3 5 4) (exUser 8) (exEvent 3),
    joinRow (exReview 1 1 7 3 4 4) (exUser 7) (exEvent 3)]"
  by (simp add: getReviewsForOfficial_def joinReviews_def twoStageStore_def exUser_def
        exEvent_def exReview_def)

lemma twoStage_avg: "calculateCategoryAverages 1 twoStageStore =
    \<lparr> mechanics = 5, professionalism = 5, positioning = 5, stalling = 5,
      consistency = 5, appearance = 4, overall = 5 \<rparr>"
  by (simp add: calculateCategoryAverages_def twoStage_rows averagesOf_def Let_def
      zeroSums_def addReview_def Math_round_eval exReview_def)

lemma twoStage_raw:
  "Math_round (of_int (sum_list (concat (map (\<lambda>r.
       [r_mechanics r, r_professionalism r, r_positioning r, r_stalling r,
        r_consistency r, r_appearance r]) (reviews twoStageStore)))) / 12) = 4"
  by (simp add: twoStageStore_def exReview_def Math_round_eval)

lemma exStore_created_rows:
  "officials (snd (createReview exInsert 500 exStore)) = [exOfficial 1 4 3, exOfficial 2 3 4]"
proof -
  let ?new = "\<lparr> r_id = 4, r_officialId = 1, r_userId = 9, r_eventId = 3,
       r_mechanics = 5, r_professionalism = 5, r_positioning = 5,
       r_stalling = 5, r_consistency = 5, r_appearance = 5,
       r_comment = [], r_date = 500, r_isReported = False, r_isAnonymous = False \<rparr>"
  let ?d1 = "exStore\<lparr> reviews := reviews exStore @ [?new], reviews_seq := reviews_seq exStore + 1 \<rparr>"
  have res: "snd (createReview exInsert 500 exStore) = updateOfficialRating 1 ?d1"
    by (simp add: createReview_def Let_def exStore_fields exInsert_def exReview_def)
  have rows: "getReviewsForOfficial 1 ?d1 =
     [joinRow ?new (exUser 9) (exEvent 3),
      joinRow (exReview 2 1 8 3 4 4) (exUser 8) (exEvent 3),
      joinRow (exReview 1 1 7 3 4 5) (exUser 7) (exEvent 3)]"
    by (simp add: getReviewsForOfficial_def joinReviews_def ex_defs)
  have avg: "overall (calculateCategoryAverages 1 ?d1) = 4"
    by (simp add: calculateCategoryAverages_def rows averagesOf_def Let_def zeroSums_def
          addReview_def Math_round_eval exReview_def)
  show ?thesis
    unfolding res officials_updateOfficialRating avg rows
    by (simp add: exStore_fields exOfficial_simps)
qed

section \<open>Claims\<close>

text \<open>
  C1. The claim: every run of the batch recomputes every official of the store, and a
  failed recompute of one official is skipped, so the result for an official B does not
  depend on whether the recompute of another official A failed. The code, evaluated:
  with twenty-one officials and no failure, the batch recomputes the first twenty
  (the default page of \<open>getOfficials\<close>) and leaves the twenty-first with its old rating;
  and in \<open>exStore\<close>, when the recompute of official 1 fails, the batch ends with that
  error and official 2 keeps its old rating 3 with 4 reviews, while it gets 0 with 0
  reviews when the recompute of official 1 succeeds.
\<close>

theorem refreshAllOfficialRatings_first_page_only:
  "refreshAllOfficialRatings (\<lambda>i. False) manyOfficials =
     (Inr (), manyOfficials\<lparr> officials :=
        map (\<lambda>i. exOfficial i 0 0)
          [1, 2, 3, 4, 5, 6, 7, 8, 9, 10, 11, 12, 13, 14, 15, 16, 17, 18, 19, 20]
        @ [exOfficial 21 5 1] \<rparr>)
 \<and> officials (updateOfficialRating 21 manyOfficials) ! 20 = exOfficial 21 0 0
 \<and> refreshAllOfficialRatings (\<lambda>i. i = 1) exStore = (Inl StorageFailure, exStore)
 \<and> officials exStore = [exOfficial 1 0 0, exOfficial 2 3 4]
 \<and> officials (snd (refreshAllOfficialRatings (\<lambda>i. False) exStore)) =
       [exOfficial 1 4 2, exOfficial 2 0 0]"
proof -
  have r: "reviews manyOfficials = []" by (simp add: manyOfficials_def)
  have "officials (updateOfficialRating 21 manyOfficials) ! 20 = exOfficial 21 0 0"
    by (simp add: updateOfficialRating_no_rows [OF r]) (simp add: manyOfficials_def exOfficial_simps)
  then show ?thesis
    using manyOfficials_refresh exStore_refresh_fail exStore_refresh_ok exStore_fields(2)
    by simp
qed

text \<open>
  C2. The claim: deleting a user, or an event, deletes the dependent reviews and then
  refreshes all ratings. The code, evaluated on \<open>cascadeStore\<close>, whose rating is up to
  date: after \<open>deleteUser 7\<close>, and after \<open>deleteEvent 3\<close>, no review is left, yet the
  official still carries the rating 5 with 1 review; a recompute would store 0 and 0.
\<close>

theorem deleteUser_leaves_stale_rating:
  "officials (updateOfficialRating 1 cascadeStore) = [exOfficial 1 5 1]
 \<and> reviews (deleteUser 7 cascadeStore) = []
 \<and> officials (deleteUser 7 cascadeStore) = [exOfficial 1 5 1]
 \<and> officials (updateOfficialRating 1 (deleteUser 7 cascadeStore)) = [exOfficial 1 0 0]
 \<and> reviews (deleteEvent 3 cascadeStore) = []
 \<and> officials (deleteEvent 3 cascadeStore) = [exOfficial 1 5 1]
 \<and> officials (updateOfficialRating 1 (deleteEvent 3 cascadeStore)) = [exOfficial 1 0 0]"
proof -
  have 1: "officials (updateOfficialRating 1 cascadeStore) = [exOfficial 1 5 1]"
    by (simp add: officials_updateOfficialRating calculateCategoryAverages_def cascade_rows
          averagesOf_def Let_def zeroSums_def addReview_def Math_round_eval exReview_def
          cascade_officials exOfficial_simps)
  have 2: "reviews (deleteUser 7 cascadeStore) = []" "officials (deleteUser 7 cascadeStore) = [exOfficial 1 5 1]"
    by (simp_all add: deleteUser_def cascadeStore_def exReview_def)
  have 3: "reviews (deleteEvent 3 cascadeStore) = []" "officials (deleteEvent 3 cascadeStore) = [exOfficial 1 5 1]"
    by (simp_all add: deleteEvent_def cascadeStore_def exReview_def)
  have 4: "officials (updateOfficialRating 1 (deleteUser 7 cascadeStore)) = [exOfficial 1 0 0]"
    by (simp add: updateOfficialRating_no_rows [OF 2(1)] 2 exOfficial_simps)
  have 5: "officials (updateOfficialRating 1 (deleteEvent 3 cascadeStore)) = [exOfficial 1 0 0]"
    by (simp add: updateOfficialRating_no_rows [OF 3(1)] 3 exOfficial_simps)
  show ?thesis using 1 2 3 4 5 by simp
qed

text \<open>
  C3. When the primary keys of \<open>users\<close> and \<open>events\<close> are unique and the official has at
  least one valid review, each of the six category averages is the sum of that
  category's scores over the valid reviews divided by their number, rounded to the
  nearest integer with ties going up; the overall is the mean of the six rounded
  averages, rounded the same way; and the recompute stores the overall and the number
  of valid reviews.
\<close>

theorem calculateCategoryAverages_rounded_means:
  assumes du: "distinct (map u_id (users d))" and de: "distinct (map e_id (events d))"
    and ne: "validReviews ident d \<noteq> []"
  shows "let rs = validReviews ident d; n = int (length rs);
             avg = calculateCategoryAverages ident d
         in roundHalfUp (of_int (sum_list (map r_mechanics rs)) / of_int n) (mechanics avg) \<and>
            roundHalfUp (of_int (sum_list (map r_professionalism rs)) / of_int n) (professionalism avg) \<and>
            roundHalfUp (of_int (sum_list (map r_positioning rs)) / of_int n) (positioning avg) \<and>
            roundHalfUp (of_int (sum_list (map r_stalling rs)) / of_int n) (stalling avg) \<and>
            roundHalfUp (of_int (sum_list (map r_consistency rs)) / of_int n) (consistency avg) \<and>
            roundHalfUp (of_int (sum_list (map r_appearance rs)) / of_int n) (appearance avg) \<and>
            roundHalfUp (of_int (mechanics avg + professionalism avg + positioning avg
                                  + stalling avg + consistency avg + appearance avg) / 6)
                        (overall avg) \<and>
            officials (updateOfficialRating ident d) =
              map (\<lambda>off. if o_id off = ident
                          then off\<lparr> o_averageRating := overall avg, o_totalReviews := n \<rparr>
                          else off)
                  (officials d)"
proof -
  let ?rows = "getReviewsForOfficial ident d"
  have rows: "?rows \<noteq> []"
    using ne by (simp add: getReviewsForOfficial_empty_iff)
  have len: "length ?rows = length (validReviews ident d)"
    by (rule length_getReviewsForOfficial [OF du de])
  note sums = sum_getReviewsForOfficial [OF du de]
  show ?thesis
    unfolding Let_def calculateCategoryAverages_def officials_updateOfficialRating
    by (simp add: averagesOf_nonempty [OF rows] len Math_round_roundHalfUp
          sums [where h = r_mechanics and h' = r_mechanics]
          sums [where h = r_professionalism and h' = r_professionalism]
          sums [where h = r_positioning and h' = r_positioning]
          sums [where h = r_stalling and h' = r_stalling]
          sums [where h = r_consistency and h' = r_consistency]
          sums [where h = r_appearance and h' = r_appearance])
qed

text \<open>
  C4. \<open>createReview\<close> checks for an existing review of the same user, official and event
  first and fails with the duplicate error; otherwise, when no assignment links the
  official to the event, it fails with the not-assigned error. In both cases the store
  is the one it started from.
\<close>

theorem createReview_preconditions:
  "((\<exists>r \<in> set (reviews d). r_userId r = ir_userId review \<and>
        r_officialId r = ir_officialId review \<and> r_eventId r = ir_eventId review) \<longrightarrow>
      createReview review now d =
        (Inl (Error ''You have already reviewed this official for this event''), d))
 \<and> ((\<forall>r \<in> set (reviews d). \<not> (r_userId r = ir_userId review \<and>
        r_officialId r = ir_officialId review \<and> r_eventId r = ir_eventId review)) \<and>
      (\<forall>eo \<in> set (eventOfficials d). \<not> (eo_officialId eo = ir_officialId review \<and>
        eo_eventId eo = ir_eventId review)) \<longrightarrow>
      createReview review now d =
        (Inl (Error ''This official was not assigned to this event''), d))"
proof (intro conjI impI)
  assume "\<exists>r \<in> set (reviews d). r_userId r = ir_userId review \<and>
        r_officialId r = ir_officialId review \<and> r_eventId r = ir_eventId review"
  then have "filter (\<lambda>r. r_userId r = ir_userId review \<and>
        r_officialId r = ir_officialId review \<and> r_eventId r = ir_eventId review) (reviews d) \<noteq> []"
    by (auto simp: filter_empty_conv)
  then show "createReview review now d =
        (Inl (Error ''You have already reviewed this official for this event''), d)"
    by (simp add: createReview_def)
next
  assume a: "(\<forall>r \<in> set (reviews d). \<not> (r_userId r = ir_userId review \<and>
        r_officialId r = ir_officialId review \<and> r_eventId r = ir_eventId review)) \<and>
      (\<forall>eo \<in> set (eventOfficials d). \<not> (eo_officialId eo = ir_officialId review \<and>
        eo_eventId eo = ir_eventId review))"
  then have 1: "filter (\<lambda>r. r_userId r = ir_userId review \<and>
        r_officialId r = ir_officialId review \<and> r_eventId r = ir_eventId review) (reviews d) = []"
    by (auto simp: filter_empty_conv)
  from a have 2: "filter (\<lambda>eo. eo_officialId eo = ir_officialId review \<and>
        eo_eventId eo = ir_eventId review) (eventOfficials d) = []"
    by (auto simp: filter_empty_conv)
  show "createReview review now d =
        (Inl (Error ''This official was not assigned to this event''), d)"
    by (simp add: createReview_def 1 2)
qed

text \<open>
  C5. \<open>deleteReview\<close> fails with "Review not found" and leaves the store unchanged when no
  review has the id. Otherwise it removes the reviews with that id (exactly the one
  row when ids are unique), changes no other table but \<open>officials\<close>, and the official of
  the removed review carries what a recompute over the remaining reviews gives: a
  further recompute changes nothing.
\<close>

theorem deleteReview_reaggregates:
  "((\<forall>r \<in> set (reviews d). r_id r \<noteq> ident) \<longrightarrow>
      deleteReview ident d = (Inl (Error ''Review not found''), d))
 \<and> (filter (\<lambda>r. r_id r = ident) (reviews d) = rv # rest \<longrightarrow>
      (let d' = snd (deleteReview ident d); oid = r_officialId rv
       in fst (deleteReview ident d) = Inr () \<and>
          reviews d' = filter (\<lambda>r. r_id r \<noteq> ident) (reviews d) \<and>
          (distinct (map r_id (reviews d)) \<longrightarrow> reviews d' = remove1 rv (reviews d)) \<and>
          users d' = users d \<and> events d' = events d \<and>
          eventOfficials d' = eventOfficials d \<and> eventTeams d' = eventTeams d \<and>
          officials d' =
            map (\<lambda>off. if o_id off = oid
                        then off\<lparr> o_averageRating := overall (calculateCategoryAverages oid d'),
                                  o_totalReviews := int (length (getReviewsForOfficial oid d')) \<rparr>
                        else off)
                (officials d) \<and>
          updateOfficialRating oid d' = d'))"
proof (intro conjI impI)
  assume "\<forall>r \<in> set (reviews d). r_id r \<noteq> ident"
  then show "deleteReview ident d = (Inl (Error ''Review not found''), d)"
    by (rule deleteReview_absent)
next
  assume f: "filter (\<lambda>r. r_id r = ident) (reviews d) = rv # rest"
  let ?d1 = "d\<lparr> reviews := filter (\<lambda>r. r_id r \<noteq> ident) (reviews d) \<rparr>"
  have res: "deleteReview ident d = (Inr (), updateOfficialRating (r_officialId rv) ?d1)"
    by (rule deleteReview_present [OF f])
  have "rv \<in> set (filter (\<lambda>r. r_id r = ident) (reviews d))"
    by (simp add: f)
  then have rv: "rv \<in> set (reviews d)" "r_id rv = ident" by simp_all
  have rem: "filter (\<lambda>r. r_id r \<noteq> ident) (reviews d) = remove1 rv (reviews d)"
    if "distinct (map r_id (reviews d))"
    using filter_out_unique [OF that rv(1)] rv(2) by simp
  show "let d' = snd (deleteReview ident d); oid = r_officialId rv
       in fst (deleteReview ident d) = Inr () \<and>
          reviews d' = filter (\<lambda>r. r_id r \<noteq> ident) (reviews d) \<and>
          (distinct (map r_id (reviews d)) \<longrightarrow> reviews d' = remove1 rv (reviews d)) \<and>
          users d' = users d \<and> events d' = events d \<and>
          eventOfficials d' = eventOfficials d \<and> eventTeams d' = eventTeams d \<and>
          officials d' =
            map (\<lambda>off. if o_id off = oid
                        then off\<lparr> o_averageRating := overall (calculateCategoryAverages oid d'),
                                  o_totalReviews := int (length (getReviewsForOfficial oid d')) \<rparr>
                        else off)
                (officials d) \<and>
          updateOfficialRating oid d' = d'"
    unfolding Let_def res
    by (simp add: rem updateOfficialRating_twice officials_updateOfficialRating)
qed

text \<open>
  C6. An official without valid reviews: all six category averages and the overall are 0,
  and the recompute stores \<open>averageRating = 0\<close> and \<open>totalReviews = 0\<close> on every row of
  that official.
\<close>

theorem updateOfficialRating_no_valid_reviews:
  assumes "validReviews ident d = []"
  shows "calculateCategoryAverages ident d =
           \<lparr> mechanics = 0, professionalism = 0, positioning = 0, stalling = 0,
             consistency = 0, appearance = 0, overall = 0 \<rparr>
       \<and> officials (updateOfficialRating ident d) =
           map (\<lambda>off. if o_id off = ident
                       then off\<lparr> o_averageRating := 0, o_totalReviews := 0 \<rparr> else off)
               (officials d)"
proof -
  have e: "getReviewsForOfficial ident d = []"
    using assms by (simp add: getReviewsForOfficial_empty_iff)
  show ?thesis
    by (simp add: officials_updateOfficialRating calculateCategoryAverages_def e averagesOf_empty)
qed

text \<open>
  C7. \<open>updateOfficialRating\<close> is idempotent: a second recompute with no write in between
  leaves the whole store, and so \<open>averageRating\<close> and \<open>totalReviews\<close>, as the first one
  left it.
\<close>

theorem updateOfficialRating_idempotent:
  "updateOfficialRating ident (updateOfficialRating ident d) = updateOfficialRating ident d"
  by (rule updateOfficialRating_twice)

text \<open>
  C8. \<open>reportReview\<close> changes no field of any review but \<open>isReported\<close>, which becomes true
  on the reviews with the given id; it changes no other table, in particular no
  official; and the rows, the category averages and the result of a later recompute
  of any official are those of the store before the report, up to the flag.
\<close>

theorem reportReview_only_sets_flag:
  "map (\<lambda>r. r\<lparr> r_isReported := False \<rparr>) (reviews (reportReview ident d)) =
     map (\<lambda>r. r\<lparr> r_isReported := False \<rparr>) (reviews d)
 \<and> map r_isReported (reviews (reportReview ident d)) =
     map (\<lambda>r. r_id r = ident \<or> r_isReported r) (reviews d)
 \<and> officials (reportReview ident d) = officials d
 \<and> users (reportReview ident d) = users d
 \<and> events (reportReview ident d) = events d
 \<and> eventOfficials (reportReview ident d) = eventOfficials d
 \<and> eventTeams (reportReview ident d) = eventTeams d
 \<and> getReviewsForOfficial oid (reportReview ident d) =
     map (markReported ident) (getReviewsForOfficial oid d)
 \<and> calculateCategoryAverages oid (reportReview ident d) = calculateCategoryAverages oid d
 \<and> officials (updateOfficialRating oid (reportReview ident d)) =
     officials (updateOfficialRating oid d)"
proof -
  have 1: "map (\<lambda>r. r\<lparr> r_isReported := False \<rparr>) (reviews (reportReview ident d)) =
     map (\<lambda>r. r\<lparr> r_isReported := False \<rparr>) (reviews d)"
    by (simp add: o_def markReported_def if_distrib cong: if_cong)
  have 2: "map r_isReported (reviews (reportReview ident d)) =
     map (\<lambda>r. r_id r = ident \<or> r_isReported r) (reviews d)"
    by (simp add: o_def markReported_def if_distrib cong: if_cong)
  have 3: "calculateCategoryAverages oid (reportReview ident d) = calculateCategoryAverages oid d"
    by (simp add: calculateCategoryAverages_def getReviewsForOfficial_reportReview
          averagesOf_markReported)
  have 4: "officials (updateOfficialRating oid (reportReview ident d)) =
     officials (updateOfficialRating oid d)"
    unfolding officials_updateOfficialRating 3
    by (simp add: getReviewsForOfficial_reportReview)
  show ?thesis
    using 1 2 3 4 by (simp add: getReviewsForOfficial_reportReview)
qed

text \<open>
  C9. When every stored review has its scores in 1..5 and every official has an
  \<open>averageRating\<close> in 0..5 and a \<open>totalReviews\<close> that is not negative, the same holds after
  each operation: creating an official, the recompute of one official, the batch (with
  or without failures), creating a review whose scores are in 1..5, deleting and
  reporting a review, and deleting a user, an event or an official.
\<close>

theorem operations_preserve_rating_range:
  assumes "storeInv d"
  shows "storeInv (snd (createOfficial off d))
       \<and> storeInv (updateOfficialRating i d)
       \<and> storeInv (snd (refreshAllOfficialRatings fails d))
       \<and> (insertInRange review \<longrightarrow> storeInv (snd (createReview review now d)))
       \<and> storeInv (snd (deleteReview i d))
       \<and> storeInv (reportReview i d)
       \<and> storeInv (deleteUser i d)
       \<and> storeInv (deleteEvent i d)
       \<and> storeInv (deleteOfficial i d)"
  using storeInv_createOfficial [OF assms] storeInv_update [OF assms]
    storeInv_refreshAll [OF assms] storeInv_createReview [OF assms]
    storeInv_deleteReview [OF assms] storeInv_reportReview [OF assms]
    storeInv_deleteUser [OF assms] storeInv_deleteEvent [OF assms]
    storeInv_deleteOfficial [OF assms]
  by blast

text \<open>
  C10. When all valid reviews of an official carry scores in 1..5 and there is at least
  one, every rounded category average, the overall and the stored \<open>averageRating\<close> lie in
  1..5; hence a recompute gives 0 exactly when the official has no valid review.
\<close>

theorem rated_official_between_one_and_five:
  assumes "\<forall>r \<in> set (validReviews ident d). scoresInRange r"
  shows "(validReviews ident d \<noteq> [] \<longrightarrow>
           (let avg = calculateCategoryAverages ident d in
              1 \<le> mechanics avg \<and> mechanics avg \<le> 5 \<and>
              1 \<le> professionalism avg \<and> professionalism avg \<le> 5 \<and>
              1 \<le> positioning avg \<and> positioning avg \<le> 5 \<and>
              1 \<le> stalling avg \<and> stalling avg \<le> 5 \<and>
              1 \<le> consistency avg \<and> consistency avg \<le> 5 \<and>
              1 \<le> appearance avg \<and> appearance avg \<le> 5 \<and>
              1 \<le> overall avg \<and> overall avg \<le> 5) \<and>
           (\<forall>off \<in> set (officials (updateOfficialRating ident d)).
              o_id off = ident \<longrightarrow> 1 \<le> o_averageRating off \<and> o_averageRating off \<le> 5))
       \<and> (overall (calculateCategoryAverages ident d) = 0 \<longleftrightarrow> validReviews ident d = [])
       \<and> (\<forall>off \<in> set (officials (updateOfficialRating ident d)).
              o_id off = ident \<longrightarrow> (o_averageRating off = 0 \<longleftrightarrow> validReviews ident d = []))"
proof -
  let ?rows = "getReviewsForOfficial ident d"
  have rng: "\<forall>row \<in> set ?rows. scoresInRange row"
    by (rule rows_in_range [OF assms])
  have ne: "?rows \<noteq> []" if "validReviews ident d \<noteq> []"
    using that by (simp add: getReviewsForOfficial_empty_iff)
  have zero: "overall (calculateCategoryAverages ident d) = 0" if "validReviews ident d = []"
  proof -
    have "?rows = []" using that by (simp add: getReviewsForOfficial_empty_iff)
    then show ?thesis by (simp add: calculateCategoryAverages_def averagesOf_empty)
  qed
  have ov: "1 \<le> overall (calculateCategoryAverages ident d) \<and> overall (calculateCategoryAverages ident d) \<le> 5"
    if "validReviews ident d \<noteq> []"
    unfolding calculateCategoryAverages_def by (rule averagesOf_overall_range [OF ne [OF that] rng])
  have iff: "overall (calculateCategoryAverages ident d) = 0 \<longleftrightarrow> validReviews ident d = []"
    using zero ov by fastforce
  have cats: "validReviews ident d \<noteq> [] \<Longrightarrow>
           (let avg = calculateCategoryAverages ident d in
              1 \<le> mechanics avg \<and> mechanics avg \<le> 5 \<and>
              1 \<le> professionalism avg \<and> professionalism avg \<le> 5 \<and>
              1 \<le> positioning avg \<and> positioning avg \<le> 5 \<and>
              1 \<le> stalling avg \<and> stalling avg \<le> 5 \<and>
              1 \<le> consistency avg \<and> consistency avg \<le> 5 \<and>
              1 \<le> appearance avg \<and> appearance avg \<le> 5 \<and>
              1 \<le> overall avg \<and> overall avg \<le> 5)"
    unfolding Let_def calculateCategoryAverages_def
    using averagesOf_range [OF ne rng] averagesOf_overall_range [OF ne rng] by simp
  have pers: "\<forall>off \<in> set (officials (updateOfficialRating ident d)).
              o_id off = ident \<longrightarrow> o_averageRating off = overall (calculateCategoryAverages ident d)"
    using persisted_rating by blast
  show ?thesis
  proof (intro conjI impI ballI)
    assume "validReviews ident d \<noteq> []"
    then show "let avg = calculateCategoryAverages ident d in
              1 \<le> mechanics avg \<and> mechanics avg \<le> 5 \<and>
              1 \<le> professionalism avg \<and> professionalism avg \<le> 5 \<and>
              1 \<le> positioning avg \<and> positioning avg \<le> 5 \<and>
              1 \<le> stalling avg \<and> stalling avg \<le> 5 \<and>
              1 \<le> consistency avg \<and> consistency avg \<le> 5 \<and>
              1 \<le> appearance avg \<and> appearance avg \<le> 5 \<and>
              1 \<le> overall avg \<and> overall avg \<le> 5"
      by (rule cats)
  next
    fix off
    assume "validReviews ident d \<noteq> []" "off \<in> set (officials (updateOfficialRating ident d))"
      "o_id off = ident"
    then show "1 \<le> o_averageRating off" "o_averageRating off \<le> 5"
      using ov pers by simp_all
  next
    show "overall (calculateCategoryAverages ident d) = 0 \<longleftrightarrow> validReviews ident d = []"
      by (rule iff)
  next
    fix off
    assume "off \<in> set (officials (updateOfficialRating ident d))" "o_id off = ident"
    then show "o_averageRating off = 0 \<longleftrightarrow> validReviews ident d = []"
      using iff pers by simp
  qed
qed

section \<open>Witnesses\<close>

theorem calculateCategoryAverages_rounded_means_witness:
  "distinct (map u_id (users exStore)) \<and> distinct (map e_id (events exStore)) \<and>
   validReviews 1 exStore = [exReview 1 1 7 3 4 5, exReview 2 1 8 3 4 4] \<and>
   calculateCategoryAverages 1 exStore =
     \<lparr> mechanics = 4, professionalism = 4, positioning = 4, stalling = 4,
       consistency = 4, appearance = 5, overall = 4 \<rparr> \<and>
   roundHalfUp (9 / 2) (appearance (calculateCategoryAverages 1 exStore)) \<and>
   roundHalfUp (25 / 6) (overall (calculateCategoryAverages 1 exStore)) \<and>
   officials (updateOfficialRating 1 exStore) = [exOfficial 1 4 2, exOfficial 2 3 4] \<and>
   roundHalfUp (29 / 6) (overall (calculateCategoryAverages 1 twoStageStore)) \<and>
   overall (calculateCategoryAverages 1 twoStageStore) = 5 \<and>
   Math_round (of_int (sum_list (concat (map (\<lambda>r.
       [r_mechanics r, r_professionalism r, r_positioning r, r_stalling r,
        r_consistency r, r_appearance r]) (reviews twoStageStore)))) / 12) = 4"
proof -
  have du: "distinct (map u_id (users exStore))" by (simp add: ex_defs)
  have de: "distinct (map e_id (events exStore))" by (simp add: ex_defs)
  have ne: "validReviews 1 exStore \<noteq> []" by (simp add: exStore_valid1)
  have du': "distinct (map u_id (users twoStageStore))"
    by (simp add: twoStageStore_def exUser_def)
  have de': "distinct (map e_id (events twoStageStore))"
    by (simp add: twoStageStore_def exEvent_def)
  have ne': "validReviews 1 twoStageStore \<noteq> []"
    by (simp add: validReviews_def twoStageStore_def exUser_def exEvent_def exReview_def)
  have first: "distinct (map u_id (users exStore)) \<and> distinct (map e_id (events exStore)) \<and>
   validReviews 1 exStore = [exReview 1 1 7 3 4 5, exReview 2 1 8 3 4 4] \<and>
   calculateCategoryAverages 1 exStore =
     \<lparr> mechanics = 4, professionalism = 4, positioning = 4, stalling = 4,
       consistency = 4, appearance = 5, overall = 4 \<rparr> \<and>
   roundHalfUp (9 / 2) (appearance (calculateCategoryAverages 1 exStore)) \<and>
   roundHalfUp (25 / 6) (overall (calculateCategoryAverages 1 exStore)) \<and>
   officials (updateOfficialRating 1 exStore) = [exOfficial 1 4 2, exOfficial 2 3 4]"
    using calculateCategoryAverages_rounded_means [OF du de ne] du de
    by (simp add: Let_def exStore_valid1 exStore_avg1) (simp add: ex_defs)
  have second: "roundHalfUp (29 / 6) (overall (calculateCategoryAverages 1 twoStageStore))"
    using calculateCategoryAverages_rounded_means [OF du' de' ne']
    by (simp add: Let_def twoStage_avg)
  have third: "overall (calculateCategoryAverages 1 twoStageStore) = 5"
    by (simp add: twoStage_avg)
  show ?thesis
    using first second third twoStage_raw by blast
qed

theorem createReview_preconditions_witness:
  "createReview (exInsert\<lparr> ir_userId := 7 \<rparr>) 500 exStore =
     (Inl (Error ''You have already reviewed this official for this event''), exStore) \<and>
   createReview (exInsert\<lparr> ir_officialId := 2 \<rparr>) 500 exStore =
     (Inl (Error ''This official was not assigned to this event''), exStore)"
  using createReview_preconditions [where d = exStore and review = "exInsert\<lparr> ir_userId := 7 \<rparr>" and now = 500]
    createReview_preconditions [where d = exStore and review = "exInsert\<lparr> ir_officialId := 2 \<rparr>" and now = 500]
  by (simp add: exStore_fields exInsert_def exReview_def)

theorem deleteReview_reaggregates_witness:
  "deleteReview 42 exStore = (Inl (Error ''Review not found''), exStore) \<and>
   fst (deleteReview 2 exStore) = Inr () \<and>
   reviews (snd (deleteReview 2 exStore)) = [exReview 1 1 7 3 4 5, exReview 3 1 99 3 1 1] \<and>
   officials (snd (deleteReview 2 exStore)) = [exOfficial 1 4 1, exOfficial 2 3 4]"
proof -
  have f: "filter (\<lambda>r. r_id r = 2) (reviews exStore) = exReview 2 1 8 3 4 4 # []"
    by (simp add: exStore_fields exReview_def)
  have g: "filter (\<lambda>r. r_id r \<noteq> 2) (reviews exStore) = [exReview 1 1 7 3 4 5, exReview 3 1 99 3 1 1]"
    by (simp add: exStore_fields exReview_def)
  have a: "\<forall>r \<in> set (reviews exStore). r_id r \<noteq> 42"
    by (simp add: exStore_fields exReview_def)
  have rows: "getReviewsForOfficial 1 (snd (deleteReview 2 exStore)) =
      [joinRow (exReview 1 1 7 3 4 5) (exUser 7) (exEvent 3)]"
    by (simp add: deleteReview_present [OF f] g)
       (simp add: getReviewsForOfficial_def joinReviews_def ex_defs)
  have avg: "overall (calculateCategoryAverages 1 (snd (deleteReview 2 exStore))) = 4"
    by (simp add: calculateCategoryAverages_def rows averagesOf_def Let_def zeroSums_def
          addReview_def Math_round_eval exReview_def)
  show ?thesis
    using deleteReview_reaggregates [where d = exStore and ident = 42]
      deleteReview_reaggregates [where d = exStore and ident = 2 and rv = "exReview 2 1 8 3 4 4" and rest = "[]"] a f
    by (simp add: Let_def g rows avg exStore_fields exOfficial_simps exReview_def)
qed

theorem updateOfficialRating_no_valid_reviews_witness:
  "validReviews 2 exStore = [] \<and>
   calculateCategoryAverages 2 exStore =
     \<lparr> mechanics = 0, professionalism = 0, positioning = 0, stalling = 0,
       consistency = 0, appearance = 0, overall = 0 \<rparr> \<and>
   officials (updateOfficialRating 2 exStore) = [exOfficial 1 0 0, exOfficial 2 0 0]"
  using updateOfficialRating_no_valid_reviews [OF exStore_valid2] exStore_valid2
  by (simp add: exStore_fields exOfficial_simps)

theorem updateOfficialRating_idempotent_witness:
  "officials (updateOfficialRating 1 exStore) = [exOfficial 1 4 2, exOfficial 2 3 4] \<and>
   officials (updateOfficialRating 1 (updateOfficialRating 1 exStore)) =
     [exOfficial 1 4 2, exOfficial 2 3 4]"
  using updateOfficialRating_idempotent [where ident = 1 and d = exStore]
  by (simp add: exStore_update1)

theorem reportReview_only_sets_flag_witness:
  "map r_isReported (reviews (reportReview 1 exStore)) = [True, False, False] \<and>
   officials (reportReview 1 exStore) = officials exStore \<and>
   calculateCategoryAverages 1 (reportReview 1 exStore) =
     \<lparr> mechanics = 4, professionalism = 4, positioning = 4, stalling = 4,
       consistency = 4, appearance = 5, overall = 4 \<rparr>"
  using reportReview_only_sets_flag [where d = exStore and ident = 1 and oid = 1]
  by (simp add: exStore_avg1 exStore_fields exReview_def del: reportReview_frame)

theorem operations_preserve_rating_range_witness:
  "storeInv exStore \<and> insertInRange exInsert \<and>
   storeInv (snd (createOfficial exNewOfficial exStore)) \<and>
   storeInv (updateOfficialRating 1 exStore) \<and>
   storeInv (snd (refreshAllOfficialRatings (\<lambda>i. False) exStore)) \<and>
   storeInv (snd (createReview exInsert 500 exStore)) \<and>
   officials (snd (createReview exInsert 500 exStore)) = [exOfficial 1 4 3, exOfficial 2 3 4] \<and>
   storeInv (snd (deleteReview 2 exStore)) \<and>
   storeInv (reportReview 1 exStore) \<and>
   storeInv (deleteUser 7 exStore) \<and>
   storeInv (deleteEvent 3 exStore) \<and>
   storeInv (deleteOfficial 1 exStore)"
proof -
  have i: "insertInRange exInsert" by (simp add: insertInRange_def exInsert_def)
  show ?thesis
    using operations_preserve_rating_range [OF storeInv_exStore] i storeInv_exStore
      exStore_created_rows
    by simp
qed

theorem rated_official_between_one_and_five_witness:
  "scoresInRange (exReview 1 1 7 3 4 5) \<and> scoresInRange (exReview 2 1 8 3 4 4) \<and>
   validReviews 1 exStore \<noteq> [] \<and>
   1 \<le> overall (calculateCategoryAverages 1 exStore) \<and>
   overall (calculateCategoryAverages 1 exStore) \<le> 5 \<and>
   validReviews 2 exStore = [] \<and>
   overall (calculateCategoryAverages 2 exStore) = 0"
proof -
  have s: "scoresInRange (exReview 1 1 7 3 4 5)" "scoresInRange (exReview 2 1 8 3 4 4)"
    by (simp_all add: scoresInRange_def exReview_def)
  have h1: "\<forall>r \<in> set (validReviews 1 exStore). scoresInRange r"
    using s by (simp add: exStore_valid1)
  have h2: "\<forall>r \<in> set (validReviews 2 exStore). scoresInRange r"
    by (simp add: exStore_valid2)
  show ?thesis
    using rated_official_between_one_and_five [OF h1]
      rated_official_between_one_and_five [OF h2] s
    by (simp add: exStore_valid1 exStore_valid2 Let_def)
qed

end
